theory Spec2Isabelle
  imports Main "HOL-Library.Multiset"
begin

section \<open>Diagnostics: \<open>utils::fatal\<close>, \<open>utils::error\<close>, \<open>utils::warn\<close>\<close>

text \<open>
  \<open>utils::fatal\<close> throws \<open>std::logic_error\<close> and \<open>utils::error\<close> throws
  \<open>std::runtime_error\<close>; the constructor records which of the two was thrown and
  carries the \<open>str\<close> argument (the constant colour prefix is left out).
  \<open>OutOfBounds\<close> marks a read of \<open>args[0]\<close> on an empty vector, where the C++
  behaviour is undefined.

  A call that may throw returns an \<open>outcome\<close>: \<open>(None, s)\<close> when it returns with
  state \<open>s\<close>, \<open>(Some e, s)\<close> when it throws \<open>e\<close> and leaves the state \<open>s\<close> behind.
\<close>

datatype error = Fatal string | Error string | OutOfBounds

type_synonym 's outcome = "error option \<times> 's"

definition and_then :: "'s outcome \<Rightarrow> ('s \<Rightarrow> 's outcome) \<Rightarrow> 's outcome" where
  "and_then r f = (case r of (None, s) \<Rightarrow> f s | (Some e, s) \<Rightarrow> (Some e, s))"

abbreviation q :: string where
  "q \<equiv> [CHR 0x27]"

text \<open>The texts of the diagnostics, as the source concatenates them.\<close>

definition unexpected_conversion :: "string \<Rightarrow> string \<Rightarrow> string" where
  "unexpected_conversion s ty = ''Unexpected conversion of '' @ q @ s @ q @ '' to '' @ ty @ ''.''"

definition invalid_value :: "string \<Rightarrow> string" where
  "invalid_value a = ''Invaild value '' @ q @ a @ q"

definition duplicate_name :: "string \<Rightarrow> string" where
  "duplicate_name n = ''Duplicate names are prohibited.('' @ q @ n @ q @ '').''"

definition discarded :: "string \<Rightarrow> string" where
  "discarded a = ''Discarded arguments '' @ q @ a @ q"

definition unrecognized :: "string \<Rightarrow> string" where
  "unrecognized n = ''Unrecognized option '' @ q @ n @ q @ ''.''"

section \<open>\<open>std::to_string\<close> and the converters \<open>utils::str_to\<close>\<close>

function string_of_nat :: "nat \<Rightarrow> string" where
  "string_of_nat n =
     (if n < 10 then [''0123456789'' ! n]
      else string_of_nat (n div 10) @ [''0123456789'' ! (n mod 10)])"
  by pat_completeness auto
termination
  by (relation "measure (\<lambda>n. n)") auto

declare string_of_nat.simps [simp del]

definition to_string :: "int \<Rightarrow> string" where
  "to_string i = (if i < 0 then ''-'' @ string_of_nat (nat (- i)) else string_of_nat (nat i))"

text \<open>\<open>str_to<bool>\<close>, lines 204 to 214.\<close>

definition str_to_bool :: "string \<Rightarrow> error + bool" where
  "str_to_bool s =
     (if s = ''true'' \<or> s = ''True'' \<or> s = ''TRUE'' then Inr True
      else if s = ''false'' \<or> s = ''False'' \<or> s = ''FALSE'' then Inr False
      else Inl (Error (unexpected_conversion s ''boolean'')))"

text \<open>
  \<open>std::stoi\<close> belongs to the C++ standard library. Its contract (\<open>strtol\<close> in base
  10 and the C locale): skip leading white space, read an optional sign and the longest
  run of decimal digits, ignore what follows; throw when there is no digit or the value
  does not fit an \<open>int\<close>. \<open>None\<close> stands for the throw.
\<close>

definition isspace :: "char \<Rightarrow> bool" where
  "isspace ch = (ch \<in> set [CHR '' '', CHR 0x09, CHR 0x0A, CHR 0x0B, CHR 0x0C, CHR 0x0D])"

definition isdigit :: "char \<Rightarrow> bool" where
  "isdigit ch = (ch \<in> set ''0123456789'')"

definition digits_value :: "string \<Rightarrow> int" where
  "digits_value ds = foldl (\<lambda>acc ch. 10 * acc + (of_char ch - 48)) 0 ds"

definition std_stoi :: "string \<Rightarrow> int option" where
  "std_stoi s =
     (let s1 = dropWhile isspace s;
          neg = (take 1 s1 = ''-'');
          s2 = (if take 1 s1 = ''-'' \<or> take 1 s1 = ''+'' then drop 1 s1 else s1);
          ds = takeWhile isdigit s2;
          v = (if neg then - digits_value ds else digits_value ds)
      in if ds = [] then None
         else if v < - (2 ^ 31) \<or> 2 ^ 31 - 1 < v then None
         else Some v)"

text \<open>\<open>str_to<int>\<close>, lines 120 to 132: every exception of \<open>std::stoi\<close> becomes \<open>utils::error\<close>.\<close>

definition str_to_int :: "string \<Rightarrow> error + int" where
  "str_to_int s =
     (case std_stoi s of
        Some v \<Rightarrow> Inr v
      | None \<Rightarrow> Inl (Error (unexpected_conversion s ''int'')))"

section \<open>Tokens, callbacks and packed tasks\<close>

type_synonym CmdArg = "string list"

text \<open>
  \<open>Cmd = std::function<void(CmdArg &)>\<close>: an action receives its argument vector by
  reference and acts on the variables it captured. \<open>'w\<close> is the state of those
  variables; the action returns the vector and the state as it leaves them, also when it
  throws.
\<close>

type_synonym 'w Cmd = "CmdArg \<times> 'w \<Rightarrow> (CmdArg \<times> 'w) outcome"

record Token =
  cmd :: string
  args :: "string list"

definition add :: "Token \<Rightarrow> string \<Rightarrow> Token" where
  "add t v = t\<lparr>args := args t @ [v]\<rparr>"

text \<open>
  \<open>Packed\<close> holds \<open>std::bind(func, arg)\<close>: the action \<open>packed\<close> and the copy
  \<open>bound_arg\<close> of the argument vector that the bind object owns and hands to the action
  by reference at every call.
\<close>

record 'w Packed =
  packed :: "'w Cmd"
  bound_arg :: CmdArg
  priority :: int

definition call :: "'w Packed \<Rightarrow> 'w \<Rightarrow> ('w Packed \<times> 'w) outcome" where
  "call p w = (case packed p (bound_arg p, w) of (e, a, w') \<Rightarrow> (e, p\<lparr>bound_arg := a\<rparr>, w'))"

record 'w Callback =
  name :: string
  func :: "'w Cmd"
  expected_args :: int
  priority :: int

text \<open>The default constructor \<open>Callback()\<close>: an action that does nothing.\<close>

definition Callback_default :: "'w Callback" where
  "Callback_default =
     \<lparr>name = [], func = (\<lambda>(a, w). (None, a, w)), expected_args = - 1, priority = - 1\<rparr>"

text \<open>
  In \<open>arg.size() < expected_args\<close> the \<open>int\<close> is converted to the unsigned 64-bit
  \<open>size_t\<close> before the comparison.
\<close>

definition size_t_of_int :: "int \<Rightarrow> nat" where
  "size_t_of_int i = nat (i mod 2 ^ 64)"

text \<open>
  \<open>Callback::pack\<close>, lines 260 to 276. The result is the thrown error, or the lines
  written by \<open>utils::warn\<close> and the packed task.
\<close>

definition too_few :: "string \<Rightarrow> nat \<Rightarrow> int \<Rightarrow> string" where
  "too_few n given expected =
     n @ '': '' @ ''Too few arguments ('' @ to_string (int given) @ ''), expects '' @ to_string expected"

definition too_many :: "string \<Rightarrow> int \<Rightarrow> nat \<Rightarrow> string" where
  "too_many n expected given =
     n @ '': '' @ ''Expected '' @ to_string expected @ '' arguments, but '' @ to_string (int given)
     @ '' was given.''"

definition pack :: "'w Callback \<Rightarrow> CmdArg \<Rightarrow> error + (string list \<times> 'w Packed)" where
  "pack cb arg =
     (if expected_args cb \<noteq> - 1 \<and> length arg < size_t_of_int (expected_args cb) then
        Inl (Error (too_few (name cb) (length arg) (expected_args cb)))
      else
        Inr (if expected_args cb \<noteq> - 1 \<and> size_t_of_int (expected_args cb) < length arg then
               [too_many (name cb) (expected_args cb) (length arg)]
             else [],
             \<lparr>packed = func cb, bound_arg = arg, priority = Callback.priority cb\<rparr>))"

section \<open>The class \<open>CLI\<close>\<close>

text \<open>
  The five members of the class (the member \<open>alias\<close> is the field \<open>alias_map\<close>),
  and \<open>cout\<close>: the lines \<open>utils::warn\<close> has written to \<open>std::cout\<close>, in order.
  The two \<open>std::map\<close>s are only searched, inserted into and indexed, never iterated, so
  they are maps.
\<close>

record 'w CLI =
  tokens :: "Token list"
  alias_map :: "string \<rightharpoonup> string"
  funcs :: "string \<rightharpoonup> 'w Callback"
  tasks :: "'w Packed list"
  parsed :: bool
  cout :: "string list"

definition CLI_new :: "'w CLI" where
  "CLI_new = \<lparr>tokens = [], alias_map = Map.empty, funcs = Map.empty, tasks = [], parsed = False,
              cout = []\<rparr>"

text \<open>\<open>std::map::insert\<close> keeps the old entry when the key is present.\<close>

definition map_insert :: "('k \<rightharpoonup> 'v) \<Rightarrow> 'k \<Rightarrow> 'v \<Rightarrow> ('k \<rightharpoonup> 'v)" where
  "map_insert m k v = (if m k = None then m(k \<mapsto> v) else m)"

text \<open>\<open>funcs[k]\<close>: \<open>std::map::operator[]\<close> inserts a default callback when the key is absent.\<close>

definition funcs_index :: "'w CLI \<Rightarrow> string \<Rightarrow> 'w Callback \<times> 'w CLI" where
  "funcs_index c k =
     (case funcs c k of
        Some cb \<Rightarrow> (cb, c)
      | None \<Rightarrow> (Callback_default, c\<lparr>funcs := (funcs c)(k \<mapsto> Callback_default)\<rparr>))"

subsection \<open>Registration\<close>

text \<open>\<open>add_cmd(cmd, func, expected_args, priority)\<close>, lines 289 to 297.\<close>

definition add_cmd :: "string \<Rightarrow> 'w Cmd \<Rightarrow> int \<Rightarrow> int \<Rightarrow> 'w CLI \<Rightarrow> 'w CLI outcome" where
  "add_cmd cm fn ea pr c =
     (if parsed c then (Some (Fatal ''Can not add_cmd() after parse().''), c)
      else if funcs c cm \<noteq> None then
        (Some (Fatal (duplicate_name cm)), c)
      else (None, c\<lparr>funcs := map_insert (funcs c) cm
                       \<lparr>name = cm, func = fn, expected_args = ea, priority = pr\<rparr>\<rparr>))"

text \<open>\<open>add_cmd(cmd, alia, func, expected_args, priority)\<close>, lines 299 to 311.\<close>

definition add_cmd_alias ::
  "string \<Rightarrow> string \<Rightarrow> 'w Cmd \<Rightarrow> int \<Rightarrow> int \<Rightarrow> 'w CLI \<Rightarrow> 'w CLI outcome" where
  "add_cmd_alias cm alia fn ea pr c =
     (if parsed c then (Some (Fatal ''Can not add_cmd() after parse().''), c)
      else if funcs c cm \<noteq> None then
        (Some (Fatal (duplicate_name cm)), c)
      else if alias_map c alia \<noteq> None then
        (Some (Fatal (duplicate_name alia)), c)
      else (None, c\<lparr>funcs := map_insert (funcs c) cm
                       \<lparr>name = cm, func = fn, expected_args = ea, priority = pr\<rparr>,
                     alias_map := map_insert (alias_map c) alia cm\<rparr>))"

text \<open>
  The action that \<open>add_value\<close> registers (lines 319 to 325). \<open>conv\<close> is
  \<open>utils::str_to<T>\<close>, \<open>restrictor\<close> the predicate, and \<open>assign\<close> the write to the
  captured reference \<open>value\<close>.
\<close>

definition value_action ::
  "(string \<Rightarrow> error + 'a) \<Rightarrow> ('a \<Rightarrow> bool) \<Rightarrow> ('a \<Rightarrow> 'w \<Rightarrow> 'w) \<Rightarrow> 'w Cmd" where
  "value_action conv restrictor assign =
     (\<lambda>(a, w).
        case a of
          [] \<Rightarrow> (Some OutOfBounds, a, w)
        | a0 # _ \<Rightarrow>
            (case conv a0 of
               Inl e \<Rightarrow> (Some e, a, w)
             | Inr temp \<Rightarrow>
                 if \<not> restrictor temp then (Some (Error (invalid_value a0)), a, w)
                 else (None, a, assign temp w)))"

text \<open>The restrictors \<open>range\<close>, \<open>oneof\<close> and \<open>default_restrictor\<close>, lines 33 to 58.\<close>

definition range_restrictor :: "'a::ord \<Rightarrow> 'a \<Rightarrow> 'a \<Rightarrow> bool" where
  "range_restrictor a b v = (a \<le> v \<and> v < b)"

definition oneof :: "'a list \<Rightarrow> 'a \<Rightarrow> bool" where
  "oneof s v = (v \<in> set s)"

definition default_restrictor :: "'a \<Rightarrow> bool" where
  "default_restrictor v = True"

definition add_value ::
  "string \<Rightarrow> (string \<Rightarrow> error + 'a) \<Rightarrow> ('a \<Rightarrow> 'w \<Rightarrow> 'w) \<Rightarrow> ('a \<Rightarrow> bool) \<Rightarrow> 'w CLI \<Rightarrow> 'w CLI outcome"
  where
  "add_value nm conv assign restrictor c =
     (if parsed c then (Some (Fatal ''Can not add_value() after parse().''), c)
      else add_cmd nm (value_action conv restrictor assign) 1 (- 1) c)"

definition add_value_alias ::
  "string \<Rightarrow> string \<Rightarrow> (string \<Rightarrow> error + 'a) \<Rightarrow> ('a \<Rightarrow> 'w \<Rightarrow> 'w) \<Rightarrow> ('a \<Rightarrow> bool) \<Rightarrow> 'w CLI
     \<Rightarrow> 'w CLI outcome"
  where
  "add_value_alias nm alia conv assign restrictor c =
     (if parsed c then (Some (Fatal ''Can not add_value() after parse().''), c)
      else add_cmd_alias nm alia (value_action conv restrictor assign) 1 (- 1) c)"

text \<open>\<open>add_option\<close>, lines 348 to 370: \<open>set_true\<close> is the write \<open>option = true\<close>.\<close>

definition option_action :: "('w \<Rightarrow> 'w) \<Rightarrow> 'w Cmd" where
  "option_action set_true = (\<lambda>(a, w). (None, a, set_true w))"

definition add_option :: "string \<Rightarrow> ('w \<Rightarrow> 'w) \<Rightarrow> 'w CLI \<Rightarrow> 'w CLI outcome" where
  "add_option nm set_true c =
     (if parsed c then (Some (Fatal ''Can not add_value() after parse().''), c)
      else add_cmd nm (option_action set_true) 0 (- 1) c)"

definition add_option_alias :: "string \<Rightarrow> string \<Rightarrow> ('w \<Rightarrow> 'w) \<Rightarrow> 'w CLI \<Rightarrow> 'w CLI outcome" where
  "add_option_alias nm alia set_true c =
     (if parsed c then (Some (Fatal ''Can not add_value() after parse().''), c)
      else add_cmd_alias nm alia (option_action set_true) 0 (- 1) c)"

subsection \<open>\<open>run\<close>, lines 372 to 379\<close>

fun run_tasks :: "'w Packed list \<Rightarrow> 'w \<Rightarrow> ('w Packed list \<times> 'w) outcome" where
  "run_tasks [] w = (None, [], w)"
| "run_tasks (r # rs) w =
     (case call r w of
        (Some e, r', w') \<Rightarrow> (Some e, r' # rs, w')
      | (None, r', w') \<Rightarrow> (case run_tasks rs w' of (e, rs', w'') \<Rightarrow> (e, r' # rs', w'')))"

definition run :: "'w CLI \<times> 'w \<Rightarrow> ('w CLI \<times> 'w) outcome" where
  "run s =
     (case s of (c, w) \<Rightarrow>
        if \<not> parsed c then (Some (Fatal ''Option has not parsed.''), c, w)
        else (case run_tasks (tasks c) w of (e, ts, w') \<Rightarrow> (e, c\<lparr>tasks := ts\<rparr>, w')))"

subsection \<open>\<open>parse\<close>, lines 381 to 419\<close>

text \<open>\<open>argv[i][k]\<close> on a C string: the terminating NUL is read at \<open>k = strlen\<close>.\<close>

definition c_at :: "string \<Rightarrow> nat \<Rightarrow> char" where
  "c_at s k = (if k < length s then s ! k else CHR 0x00)"

text \<open>\<open>tokens.back().add(v)\<close>; the vector is never empty where \<open>parse\<close> calls it.\<close>

definition back_add :: "Token list \<Rightarrow> string \<Rightarrow> Token list" where
  "back_add ts v = ts[length ts - 1 := add (ts ! (length ts - 1)) v]"

text \<open>The body of the loop of lines 384 to 395, for one \<open>argv[i]\<close>.\<close>

definition tokenize_arg :: "Token list \<Rightarrow> string \<Rightarrow> Token list" where
  "tokenize_arg ts a =
     (if c_at a 0 = CHR ''-'' \<and> length a \<noteq> 1 then
        (if c_at a 1 = CHR ''-'' \<and> length a \<noteq> 2 then ts @ [\<lparr>cmd = drop 2 a, args = []\<rparr>]
         else ts @ [\<lparr>cmd = drop 1 a, args = []\<rparr>])
      else back_add ts a)"

text \<open>\<open>is_multi\<close>, lines 437 to 448.\<close>

definition is_multi :: "'w CLI \<Rightarrow> string \<Rightarrow> bool" where
  "is_multi c str =
     (if funcs c str \<noteq> None \<or> alias_map c str \<noteq> None then False
      else list_all (\<lambda>r. \<not> (funcs c [r] = None \<and> alias_map c [r] = None)) str)"

text \<open>
  \<open>parse_multi\<close>, lines 422 to 435. A vector iterator is a position in the vector.
  \<open>tokens.insert(it, t)\<close> puts \<open>t\<close> at position \<open>it\<close> and returns that position;
  \<open>tokens.erase(it)\<close> removes the element there, and the source goes on with \<open>it\<close>
  at the same position, then \<open>it++\<close>.
\<close>

definition insert_at :: "'a list \<Rightarrow> nat \<Rightarrow> 'a \<Rightarrow> 'a list" where
  "insert_at xs i x = take i xs @ x # drop i xs"

definition erase_at :: "'a list \<Rightarrow> nat \<Rightarrow> 'a list" where
  "erase_at xs i = take i xs @ drop (Suc i) xs"

text \<open>
  The inner loop of lines 428 and 429: one step \<open>it = 1 + tokens.insert(it, Token(ch))\<close>
  for every character of \<open>it->cmd\<close>; \<open>it\<close> stays on the token being expanded.
\<close>

definition insert_chars :: "Token list \<Rightarrow> nat \<Rightarrow> string \<Rightarrow> Token list \<times> nat" where
  "insert_chars ts it str =
     foldl (\<lambda>(ts', it') ch. (insert_at ts' it' \<lparr>cmd = [ch], args = []\<rparr>, 1 + it')) (ts, it) str"

function parse_multi_loop :: "'w CLI \<Rightarrow> nat \<Rightarrow> 'w CLI" where
  "parse_multi_loop c it =
     (if it < length (tokens c) then
        (if is_multi c (cmd (tokens c ! it)) then
           (case insert_chars (tokens c) it (cmd (tokens c ! it)) of
              (ts, it') \<Rightarrow>
                parse_multi_loop
                  (c\<lparr>tokens := erase_at ts it', cout := cout c @ map discarded (args (ts ! it'))\<rparr>)
                  (Suc it'))
         else parse_multi_loop c (Suc it))
      else c)"
  by pat_completeness auto

lemma insert_chars_eq:
  "it \<le> length ts \<Longrightarrow>
   insert_chars ts it str =
     (take it ts @ map (\<lambda>ch. \<lparr>cmd = [ch], args = []\<rparr>) str @ drop it ts, it + length str)"
proof -
  have gen: "it \<le> length ts \<Longrightarrow>
      foldl (\<lambda>(ts', it') ch. (insert_at ts' it' \<lparr>cmd = [ch], args = []\<rparr>, 1 + it'))
        (take it ts @ pre @ drop it ts, it + length pre) str
      = (take it ts @ (pre @ map (\<lambda>ch. \<lparr>cmd = [ch], args = []\<rparr>) str) @ drop it ts,
         it + length pre + length str)" for pre :: "Token list"
  proof (induction str arbitrary: pre)
    case Nil
    then show ?case by simp
  next
    case (Cons ch str)
    have step: "insert_at (take it ts @ pre @ drop it ts) (it + length pre) \<lparr>cmd = [ch], args = []\<rparr>
        = take it ts @ (pre @ [\<lparr>cmd = [ch], args = []\<rparr>]) @ drop it ts"
      using Cons.prems by (simp add: insert_at_def)
    show ?case
      using Cons.IH [OF Cons.prems, of "pre @ [\<lparr>cmd = [ch], args = []\<rparr>]"] step by simp
  qed
  assume "it \<le> length ts"
  from gen [OF this, of "[]"] show ?thesis
    by (simp add: insert_chars_def)
qed

lemma parse_multi_step:
  assumes "it < length ts"
  shows "insert_chars ts it (cmd (ts ! it)) = (ts', it') \<Longrightarrow>
    it' = it + length (cmd (ts ! it)) \<and> ts' ! it' = ts ! it \<and>
    erase_at ts' it' =
      take it ts @ map (\<lambda>ch. \<lparr>cmd = [ch], args = []\<rparr>) (cmd (ts ! it)) @ drop (Suc it) ts"
  using assms
  by (auto simp: insert_chars_eq erase_at_def nth_append Cons_nth_drop_Suc [symmetric])

termination parse_multi_loop
proof (relation "measure (\<lambda>(c, it). length (tokens c) - it)", goal_cases)
  case 1
  show ?case by simp
next
  case (2 c it ts it')
  from 2(3) have "insert_chars (tokens c) it (cmd (tokens c ! it)) = (ts, it')"
    by simp
  from parse_multi_step [OF 2(1) this] 2(1) show ?case
    by auto
next
  case (3 c it)
  then show ?case by auto
qed

declare parse_multi_loop.simps [simp del]

definition parse_multi :: "'w CLI \<Rightarrow> 'w CLI" where
  "parse_multi c = parse_multi_loop c 0"

text \<open>
  \<open>tasks.emplace_back(funcs[k].pack(arg))\<close>: \<open>pack\<close> runs first, so a throw leaves
  \<open>tasks\<close> as it was.
\<close>

definition pack_token :: "'w CLI \<Rightarrow> string \<Rightarrow> CmdArg \<Rightarrow> 'w CLI outcome" where
  "pack_token c k arg =
     (case funcs_index c k of
        (cb, c1) \<Rightarrow>
          (case pack cb arg of
             Inl e \<Rightarrow> (Some e, c1)
           | Inr (ws, p) \<Rightarrow> (None, c1\<lparr>tasks := tasks c1 @ [p], cout := cout c1 @ ws\<rparr>)))"

text \<open>The loop of lines 398 to 413 over the tokens.\<close>

fun resolve :: "Token list \<Rightarrow> 'w CLI \<Rightarrow> 'w CLI outcome" where
  "resolve [] c = (None, c)"
| "resolve (r # rs) c =
     (case funcs c (cmd r) of
        Some _ \<Rightarrow>
          (case pack_token c (cmd r) (args r) of
             (Some e, c1) \<Rightarrow> (Some e, c1)
           | (None, c1) \<Rightarrow> resolve rs c1)
      | None \<Rightarrow>
          (case alias_map c (cmd r) of
             Some k \<Rightarrow>
               (case pack_token c k (args r) of
                  (Some e, c1) \<Rightarrow> (Some e, c1)
                | (None, c1) \<Rightarrow> resolve rs c1)
           | None \<Rightarrow>
               resolve rs (c\<lparr>cout := cout c @ unrecognized (cmd r) # map discarded (args r)\<rparr>)))"

text \<open>
  \<open>std::sort\<close> belongs to the C++ standard library: it leaves a permutation ordered by
  the comparison, and it leaves the order of elements that compare equal unspecified. The
  model is one sort that meets this contract, the insertion sort that keeps equal elements
  in their order (what the library's insertion sort of a short vector does). Of the model
  the general theorems use the contract alone (\<open>std_sort_sorted\<close>, \<open>std_sort_mset\<close>); on
  a long vector of equal priorities the library may leave another order.
\<close>

fun insert_before :: "('a \<Rightarrow> 'a \<Rightarrow> bool) \<Rightarrow> 'a \<Rightarrow> 'a list \<Rightarrow> 'a list" where
  "insert_before cmp x [] = [x]"
| "insert_before cmp x (y # ys) =
     (if cmp y x then y # insert_before cmp x ys else x # y # ys)"

definition std_sort :: "('a \<Rightarrow> 'a \<Rightarrow> bool) \<Rightarrow> 'a list \<Rightarrow> 'a list" where
  "std_sort cmp xs = foldr (insert_before cmp) xs []"

text \<open>
  \<open>parse(argc, argv)\<close> with \<open>argv[0] = argv0\<close> and \<open>argv[1..argc-1] = argv\<close>; the
  source reads \<open>argv[0]\<close> unconditionally, so an empty vector is not an input.
\<close>

definition tokenize :: "Token list \<Rightarrow> string \<Rightarrow> string list \<Rightarrow> Token list" where
  "tokenize ts argv0 argv = foldl tokenize_arg (ts @ [\<lparr>cmd = argv0, args = []\<rparr>]) argv"

definition parse :: "string \<Rightarrow> string list \<Rightarrow> 'w CLI \<Rightarrow> 'w CLI outcome" where
  "parse argv0 argv c =
     (let c1 = c\<lparr>tokens := tokenize (tokens c) argv0 argv\<rparr>;
          c2 = c1\<lparr>funcs := map_insert (funcs c1) argv0 Callback_default\<rparr>;
          c3 = parse_multi c2
      in case resolve (tokens c3) c3 of
           (Some e, c4) \<Rightarrow> (Some e, c4)
         | (None, c4) \<Rightarrow>
             (None, c4\<lparr>tasks := std_sort (\<lambda>p1 p2. Packed.priority p2 < Packed.priority p1) (tasks c4),
                        parsed := True\<rparr>))"

section \<open>Reference definitions\<close>

subsection \<open>The tokenizer rule\<close>

text \<open>
  The rule of the claim, in its words. \<open>claimed_opens a\<close> is the name of the token that
  the argument \<open>a\<close> opens: exactly one leading dash and length above 1, strip that dash;
  two leading dashes and length above 2, strip both; any other argument opens no token.
  \<open>rule_tokens\<close> reads the arguments with an open token \<open>cur\<close>: an argument that opens
  a token closes \<open>cur\<close>, any other is appended to \<open>cur\<close>.
\<close>

definition claimed_opens :: "string \<Rightarrow> string option" where
  "claimed_opens a =
     (if 1 < length a \<and> take 1 a = ''-'' \<and> take 2 a \<noteq> ''--'' then Some (drop 1 a)
      else if 2 < length a \<and> take 2 a = ''--'' then Some (drop 2 a)
      else None)"

fun rule_tokens :: "(string \<Rightarrow> string option) \<Rightarrow> Token \<Rightarrow> string list \<Rightarrow> Token list" where
  "rule_tokens opens cur [] = [cur]"
| "rule_tokens opens cur (a # as) =
     (case opens a of
        Some n \<Rightarrow> cur # rule_tokens opens \<lparr>cmd = n, args = []\<rparr> as
      | None \<Rightarrow> rule_tokens opens (add cur a) as)"

text \<open>The rule of the source: as claimed, but a bare \<open>--\<close> opens a token named \<open>-\<close>.\<close>

definition amended_opens :: "string \<Rightarrow> string option" where
  "amended_opens a = (if a = ''--'' then Some ''-'' else claimed_opens a)"

subsection \<open>Cluster expansion as a function of the token stream\<close>

text \<open>
  What the loop of \<open>parse_multi\<close> computes: a token that \<open>is_multi\<close> accepts is
  replaced by one token per character, and the token that follows it is passed over
  unexamined, because after \<open>erase\<close> the iterator already stands on it when \<open>it++\<close> runs.
\<close>

fun expand :: "'w CLI \<Rightarrow> Token list \<Rightarrow> Token list" where
  "expand c [] = []"
| "expand c (t # ts) =
     (if is_multi c (cmd t) then
        map (\<lambda>ch. \<lparr>cmd = [ch], args = []\<rparr>) (cmd t) @ take 1 ts @ expand c (drop 1 ts)
      else t # expand c ts)"

subsection \<open>The resolve loop and calls by position\<close>



text \<open>
  Invoking the tasks by position: \<open>call_at i\<close> is the call \<open>tasks[i]()\<close> on the
  instance, \<open>call_seq\<close> a sequence of such calls that ends at the first throw.
\<close>

definition call_at :: "nat \<Rightarrow> 'w CLI \<times> 'w \<Rightarrow> ('w CLI \<times> 'w) outcome" where
  "call_at i s =
     (case s of (c, w) \<Rightarrow>
        (case call (tasks c ! i) w of (e, r, w') \<Rightarrow> (e, c\<lparr>tasks := (tasks c)[i := r]\<rparr>, w')))"

fun call_seq :: "nat list \<Rightarrow> 'w CLI \<times> 'w \<Rightarrow> ('w CLI \<times> 'w) outcome" where
  "call_seq [] s = (None, s)"
| "call_seq (i # js) s = and_then (call_at i s) (call_seq js)"

subsection \<open>Numeric strings\<close>

text \<open>
  \<open>integer_literal s\<close>: the whole string is a number, an optional sign followed by one
  or more decimal digits and nothing else. \<open>numeric_prefix s\<close>: after leading white space
  and an optional sign the string goes on with a decimal digit.
\<close>

definition integer_literal :: "string \<Rightarrow> bool" where
  "integer_literal s =
     (case s of
        [] \<Rightarrow> False
      | c # r \<Rightarrow> if c = CHR ''-'' \<or> c = CHR ''+'' then r \<noteq> [] \<and> list_all isdigit r
                 else list_all isdigit (c # r))"

definition numeric_prefix :: "string \<Rightarrow> bool" where
  "numeric_prefix s =
     (case dropWhile isspace s of
        [] \<Rightarrow> False
      | c # r \<Rightarrow> if c = CHR ''-'' \<or> c = CHR ''+'' then (case r of [] \<Rightarrow> False | d # _ \<Rightarrow> isdigit d)
                 else isdigit c)"

subsection \<open>Example registries\<close>

text \<open>
  The state of the captured variables in the examples is a log; the action
  \<open>say n\<close> appends \<open>n\<close> to it.
\<close>

definition say :: "string \<Rightarrow> string list Cmd" where
  "say n = (\<lambda>(a, w). (None, a, w @ [n]))"

definition registry_ab :: "string list CLI outcome" where
  "registry_ab =
     and_then (add_cmd ''a'' (say ''a'') (- 1) (- 1) CLI_new) (add_cmd ''b'' (say ''b'') (- 1) (- 1))"

definition registry_abc :: "string list CLI outcome" where
  "registry_abc = and_then registry_ab (add_cmd ''c'' (say ''c'') (- 1) (- 1))"

text \<open>The log after \<open>parse\<close> and \<open>run\<close> on a registry, with the thrown error if any.\<close>

definition parse_and_run ::
  "string list CLI outcome \<Rightarrow> string \<Rightarrow> string list \<Rightarrow> error option \<times> string list" where
  "parse_and_run reg argv0 argv =
     (case and_then reg (parse argv0 argv) of
        (Some e, c) \<Rightarrow> (Some e, [])
      | (None, c) \<Rightarrow> (case run (c, []) of (e, c', w) \<Rightarrow> (e, w)))"

definition registry_priorities :: "string list CLI outcome" where
  "registry_priorities =
     and_then (add_cmd ''lowcmd'' (say ''low'') (- 1) 5 CLI_new)
       (add_cmd ''highcmd'' (say ''high'') (- 1) 10)"

definition registry_arity :: "string list CLI outcome" where
  "registry_arity =
     and_then (add_cmd ''a'' (say ''a'') (- 1) (- 1) CLI_new) (add_cmd ''n'' (say ''n'') 1 (- 1))"

text \<open>A registry whose value binding \<open>n\<close> accepts 0 to 9; \<open>b\<close> has the lowest priority.\<close>

definition registry_range :: "string list CLI outcome" where
  "registry_range =
     and_then
       (and_then (add_cmd ''a'' (say ''a'') (- 1) 5 CLI_new)
          (add_value ''n'' str_to_int (\<lambda>v w. w @ [''n'']) (range_restrictor 0 10)))
       (add_cmd ''b'' (say ''b'') (- 1) (- 2))"

section \<open>Boolean conversion\<close>

text \<open>
  C8. \<open>str_to<bool>\<close> returns true exactly on \<open>true\<close>, \<open>True\<close>, \<open>TRUE\<close>, false
  exactly on \<open>false\<close>, \<open>False\<close>, \<open>FALSE\<close>, and on every other string \<open>s\<close> it throws
  the error with the text \<open>Unexpected conversion of 's' to boolean.\<close>, which carries the
  string and the type name; so it succeeds if and only if the string is one of the six
  literals.
\<close>

theorem str_to_bool_literals:
  "(str_to_bool s = Inr True \<longleftrightarrow> s \<in> set [''true'', ''True'', ''TRUE''])
   \<and> (str_to_bool s = Inr False \<longleftrightarrow> s \<in> set [''false'', ''False'', ''FALSE''])
   \<and> (str_to_bool s = Inl (Error (''Unexpected conversion of '' @ q @ s @ q @ '' to boolean.''))
        \<longleftrightarrow> s \<notin> set [''true'', ''True'', ''TRUE'', ''false'', ''False'', ''FALSE''])
   \<and> ((\<exists>b. str_to_bool s = Inr b)
        \<longleftrightarrow> s \<in> set [''true'', ''True'', ''TRUE'', ''false'', ''False'', ''FALSE''])"
proof -
  have t: "str_to_bool s = Inr True \<longleftrightarrow> s \<in> set [''true'', ''True'', ''TRUE'']"
    by (simp add: str_to_bool_def)
  have f: "str_to_bool s = Inr False \<longleftrightarrow> s \<in> set [''false'', ''False'', ''FALSE'']"
    by (simp add: str_to_bool_def)
  have msg: "unexpected_conversion s ''boolean''
      = ''Unexpected conversion of '' @ q @ s @ q @ '' to boolean.''"
    by (simp add: unexpected_conversion_def)
  have "str_to_bool s = Inl (Error (unexpected_conversion s ''boolean''))
        \<longleftrightarrow> s \<notin> set [''true'', ''True'', ''TRUE'', ''false'', ''False'', ''FALSE'']"
    by (simp add: str_to_bool_def)
  then have e: "str_to_bool s = Inl (Error (''Unexpected conversion of '' @ q @ s @ q @ '' to boolean.''))
        \<longleftrightarrow> s \<notin> set [''true'', ''True'', ''TRUE'', ''false'', ''False'', ''FALSE'']"
    unfolding msg .
  have "(\<exists>b. str_to_bool s = Inr b) \<longleftrightarrow> str_to_bool s = Inr True \<or> str_to_bool s = Inr False"
    by (simp add: ex_bool_eq)
  then have x: "(\<exists>b. str_to_bool s = Inr b)
        \<longleftrightarrow> s \<in> set [''true'', ''True'', ''TRUE'', ''false'', ''False'', ''FALSE'']"
    unfolding t f by simp
  from t f e x show ?thesis by (intro conjI)
qed

theorem str_to_bool_literals_witness:
  "str_to_bool ''TRUE'' = Inr True \<and> str_to_bool ''False'' = Inr False
   \<and> str_to_bool ''yes'' = Inl (Error ''Unexpected conversion of 'yes' to boolean.'')
   \<and> str_to_bool ''tRUE'' = Inl (Error ''Unexpected conversion of 'tRUE' to boolean.'')"
proof -
  have a: "str_to_bool ''TRUE'' = Inr True"
    using str_to_bool_literals [of "''TRUE''"] by simp
  have b: "str_to_bool ''False'' = Inr False"
    using str_to_bool_literals [of "''False''"] by simp
  have "''yes'' \<notin> set [''true'', ''True'', ''TRUE'', ''false'', ''False'', ''FALSE'']"
    by simp
  with str_to_bool_literals [of "''yes''"]
  have "str_to_bool ''yes'' = Inl (Error (''Unexpected conversion of '' @ q @ ''yes'' @ q @ '' to boolean.''))"
    by blast
  then have c: "str_to_bool ''yes'' = Inl (Error ''Unexpected conversion of 'yes' to boolean.'')"
    by simp
  have "''tRUE'' \<notin> set [''true'', ''True'', ''TRUE'', ''false'', ''False'', ''FALSE'']"
    by simp
  with str_to_bool_literals [of "''tRUE''"]
  have "str_to_bool ''tRUE'' = Inl (Error (''Unexpected conversion of '' @ q @ ''tRUE'' @ q @ '' to boolean.''))"
    by blast
  then have d: "str_to_bool ''tRUE'' = Inl (Error ''Unexpected conversion of 'tRUE' to boolean.'')"
    by simp
  from a b c d show ?thesis by (intro conjI)
qed

section \<open>Arity check at pack time\<close>

lemma size_t_of_int_nonneg: "0 \<le> i \<Longrightarrow> i < 2 ^ 31 \<Longrightarrow> size_t_of_int i = nat i"
  by (simp add: size_t_of_int_def)

text \<open>
  An \<open>expected_args\<close> below \<open>- 1\<close> is not an arity: converted to \<open>size_t\<close> it is
  above every vector length, and \<open>pack\<close> always throws.
\<close>

lemma pack_negative_arity:
  assumes "expected_args cb < - 1" and "- (2 ^ 31) \<le> expected_args cb" and "length arg < 2 ^ 63"
  shows "pack cb arg = Inl (Error (too_few (name cb) (length arg) (expected_args cb)))"
proof -
  have "(expected_args cb + 2 ^ 64) mod 2 ^ 64 = expected_args cb + 2 ^ 64"
    using assms(1,2) by (intro mod_pos_pos_trivial) simp_all
  then have "expected_args cb mod 2 ^ 64 = expected_args cb + 2 ^ 64"
    by simp
  then have "int (length arg) < int (size_t_of_int (expected_args cb))"
    using assms by (simp add: size_t_of_int_def)
  then show ?thesis
    using assms(1) by (simp add: pack_def)
qed

text \<open>\<open>std::to_string\<close> writes a count in decimal: reading the digits back gives the count.\<close>

lemma digits_value_snoc: "digits_value (ds @ [ch]) = 10 * digits_value ds + (of_char ch - 48)"
  by (simp add: digits_value_def)

lemma digit_value: "d < 10 \<Longrightarrow> of_char (''0123456789'' ! d) - 48 = int d"
proof -
  assume "d < 10"
  then have "d = 0 \<or> d = 1 \<or> d = 2 \<or> d = 3 \<or> d = 4 \<or> d = 5 \<or> d = 6 \<or> d = 7 \<or> d = 8 \<or> d = 9"
    by arith
  then show ?thesis
    by (elim disjE) simp_all
qed

lemma digits_value_string_of_nat: "digits_value (string_of_nat n) = int n"
proof (induction n rule: string_of_nat.induct)
  case (1 n)
  show ?case
  proof (cases "n < 10")
    case True
    then show ?thesis
      using digits_value_snoc [of "[]" "''0123456789'' ! n"]
      by (simp add: string_of_nat.simps [of n] digit_value digits_value_def)
  next
    case False
    have "digits_value (string_of_nat n)
        = 10 * digits_value (string_of_nat (n div 10)) + (of_char (''0123456789'' ! (n mod 10)) - 48)"
      using False by (simp add: string_of_nat.simps [of n] digits_value_snoc)
    also have "\<dots> = 10 * int (n div 10) + int (n mod 10)"
      using "1.IH" [OF False] by (simp add: digit_value)
    also have "\<dots> = int n"
      by (simp add: zdiv_int zmod_int)
    finally show ?thesis .
  qed
qed

lemma digits_value_to_string: "0 \<le> i \<Longrightarrow> digits_value (to_string i) = i"
  by (simp add: to_string_def digits_value_string_of_nat)

text \<open>
  C5. A binding whose \<open>expected_args\<close> is set to an arity (a non-negative \<open>int\<close>):
  packing fewer arguments throws the error \<open>name: Too few arguments (given), expects
  expected\<close>; packing more arguments writes the one warning \<open>name: Expected expected
  arguments, but given was given.\<close> and binds all the arguments, none cut off; packing
  exactly that many binds them without a warning. A binding whose \<open>expected_args\<close> is unset
  (\<open>- 1\<close>) binds any number of arguments, with no error and no warning. A call of the
  packed task hands the action of the binding the whole bound vector, and the counts in
  the texts are written in decimal.
\<close>

theorem pack_arity:
  "(expected_args cb = - 1 \<longrightarrow>
      pack cb arg = Inr ([], \<lparr>packed = func cb, bound_arg = arg, priority = Callback.priority cb\<rparr>))
   \<and> (0 \<le> expected_args cb \<and> expected_args cb < 2 ^ 31 \<longrightarrow>
        (length arg < nat (expected_args cb) \<longrightarrow>
           pack cb arg = Inl (Error (name cb @ '': '' @ ''Too few arguments (''
                                     @ to_string (int (length arg)) @ ''), expects ''
                                     @ to_string (expected_args cb))))
        \<and> (nat (expected_args cb) < length arg \<longrightarrow>
           pack cb arg = Inr ([name cb @ '': '' @ ''Expected '' @ to_string (expected_args cb)
                               @ '' arguments, but '' @ to_string (int (length arg))
                               @ '' was given.''],
                              \<lparr>packed = func cb, bound_arg = arg, priority = Callback.priority cb\<rparr>))
        \<and> (length arg = nat (expected_args cb) \<longrightarrow>
           pack cb arg = Inr ([], \<lparr>packed = func cb, bound_arg = arg, priority = Callback.priority cb\<rparr>))
        \<and> digits_value (to_string (expected_args cb)) = expected_args cb)
   \<and> digits_value (to_string (int (length arg))) = int (length arg)
   \<and> call \<lparr>packed = func cb, bound_arg = arg, priority = Callback.priority cb\<rparr> w
       = (case func cb (arg, w) of
            (e, a, w') \<Rightarrow> (e, \<lparr>packed = func cb, bound_arg = a, priority = Callback.priority cb\<rparr>, w'))"
proof (intro conjI impI)
  assume "expected_args cb = - 1"
  then show "pack cb arg = Inr ([], \<lparr>packed = func cb, bound_arg = arg, priority = Callback.priority cb\<rparr>)"
    by (simp add: pack_def)
next
  assume "0 \<le> expected_args cb \<and> expected_args cb < 2 ^ 31" and "length arg < nat (expected_args cb)"
  then have "pack cb arg = Inl (Error (too_few (name cb) (length arg) (expected_args cb)))"
    by (simp add: pack_def size_t_of_int_nonneg)
  then show "pack cb arg = Inl (Error (name cb @ '': '' @ ''Too few arguments (''
      @ to_string (int (length arg)) @ ''), expects '' @ to_string (expected_args cb)))"
    by (simp only: too_few_def)
next
  assume "0 \<le> expected_args cb \<and> expected_args cb < 2 ^ 31" and "nat (expected_args cb) < length arg"
  then have "pack cb arg = Inr ([too_many (name cb) (expected_args cb) (length arg)],
      \<lparr>packed = func cb, bound_arg = arg, priority = Callback.priority cb\<rparr>)"
    by (simp add: pack_def size_t_of_int_nonneg)
  then show "pack cb arg = Inr ([name cb @ '': '' @ ''Expected '' @ to_string (expected_args cb)
      @ '' arguments, but '' @ to_string (int (length arg)) @ '' was given.''],
      \<lparr>packed = func cb, bound_arg = arg, priority = Callback.priority cb\<rparr>)"
    by (simp only: too_many_def)
next
  assume "0 \<le> expected_args cb \<and> expected_args cb < 2 ^ 31" and "length arg = nat (expected_args cb)"
  then show "pack cb arg = Inr ([], \<lparr>packed = func cb, bound_arg = arg, priority = Callback.priority cb\<rparr>)"
    by (simp add: pack_def size_t_of_int_nonneg)
next
  assume "0 \<le> expected_args cb \<and> expected_args cb < 2 ^ 31"
  then show "digits_value (to_string (expected_args cb)) = expected_args cb"
    by (simp add: digits_value_to_string)
next
  show "digits_value (to_string (int (length arg))) = int (length arg)"
    by (simp add: digits_value_to_string)
next
  show "call \<lparr>packed = func cb, bound_arg = arg, priority = Callback.priority cb\<rparr> w
       = (case func cb (arg, w) of
            (e, a, w') \<Rightarrow> (e, \<lparr>packed = func cb, bound_arg = a, priority = Callback.priority cb\<rparr>, w'))"
    by (simp add: call_def)
qed

theorem pack_arity_witness:
  "pack \<lparr>name = ''n'', func = say ''n'', expected_args = 1, priority = - 1\<rparr> []
     = Inl (Error ''n: Too few arguments (0), expects 1'')
   \<and> pack \<lparr>name = ''n'', func = say ''n'', expected_args = 1, priority = - 1\<rparr> [''x'', ''y'']
     = Inr ([''n: Expected 1 arguments, but 2 was given.''],
            \<lparr>packed = say ''n'', bound_arg = [''x'', ''y''], priority = - 1\<rparr>)
   \<and> pack \<lparr>name = ''n'', func = say ''n'', expected_args = 1, priority = - 1\<rparr> [''x'']
     = Inr ([], \<lparr>packed = say ''n'', bound_arg = [''x''], priority = - 1\<rparr>)
   \<and> pack \<lparr>name = ''p'', func = say ''p'', expected_args = - 1, priority = 7\<rparr> [''x'', ''y'', ''z'']
     = Inr ([], \<lparr>packed = say ''p'', bound_arg = [''x'', ''y'', ''z''], priority = 7\<rparr>)
   \<and> pack \<lparr>name = ''many'', func = say ''m'', expected_args = 12, priority = 0\<rparr> [''x'', ''y'', ''z'']
     = Inl (Error ''many: Too few arguments (3), expects 12'')
   \<and> call \<lparr>packed = say ''n'', bound_arg = [''x'', ''y''], priority = - 1\<rparr> [''log'']
     = (None, \<lparr>packed = say ''n'', bound_arg = [''x'', ''y''], priority = - 1\<rparr>, [''log'', ''n''])"
proof -
  let ?n = "\<lparr>name = ''n'', func = say ''n'', expected_args = 1, priority = - 1\<rparr>"
  let ?p = "\<lparr>name = ''p'', func = say ''p'', expected_args = - 1, priority = 7\<rparr>"
  let ?m = "\<lparr>name = ''many'', func = say ''m'', expected_args = 12, priority = 0\<rparr>"
  have ts: "to_string 0 = ''0''" "to_string 1 = ''1''" "to_string 2 = ''2''" "to_string 3 = ''3''"
    "to_string 12 = ''12''"
    by (simp_all add: to_string_def string_of_nat.simps)
  have a: "pack ?n [] = Inl (Error ''n: Too few arguments (0), expects 1'')"
    using pack_arity [of ?n "[]"] by (simp add: ts)
  have b: "pack ?n [''x'', ''y''] = Inr ([''n: Expected 1 arguments, but 2 was given.''],
      \<lparr>packed = say ''n'', bound_arg = [''x'', ''y''], priority = - 1\<rparr>)"
    using pack_arity [of ?n "[''x'', ''y'']"] by (simp add: ts)
  have c: "pack ?n [''x''] = Inr ([], \<lparr>packed = say ''n'', bound_arg = [''x''], priority = - 1\<rparr>)"
    using pack_arity [of ?n "[''x'']"] by simp
  have d: "pack ?p [''x'', ''y'', ''z'']
      = Inr ([], \<lparr>packed = say ''p'', bound_arg = [''x'', ''y'', ''z''], priority = 7\<rparr>)"
    using pack_arity [of ?p "[''x'', ''y'', ''z'']"] by simp
  have e: "pack ?m [''x'', ''y'', ''z''] = Inl (Error ''many: Too few arguments (3), expects 12'')"
    using pack_arity [of ?m "[''x'', ''y'', ''z'']"] by (simp add: ts)
  have f: "call \<lparr>packed = say ''n'', bound_arg = [''x'', ''y''], priority = - 1\<rparr> [''log'']
     = (None, \<lparr>packed = say ''n'', bound_arg = [''x'', ''y''], priority = - 1\<rparr>, [''log'', ''n''])"
    using pack_arity [of ?n "[''x'', ''y'']" "[''log'']"] by (simp add: say_def)
  from a b c d e f show ?thesis by (intro conjI)
qed

section \<open>Tokenizer\<close>

lemma back_add_snoc: "back_add (ts @ [cur]) v = ts @ [add cur v]"
  by (simp add: back_add_def)

lemma tokenize_arg_rule:
  "tokenize_arg ts a =
     (case amended_opens a of Some n \<Rightarrow> ts @ [\<lparr>cmd = n, args = []\<rparr>] | None \<Rightarrow> back_add ts a)"
proof (cases a)
  case Nil
  then show ?thesis
    by (simp add: tokenize_arg_def amended_opens_def claimed_opens_def c_at_def)
next
  case a1: (Cons x r)
  show ?thesis
  proof (cases r)
    case Nil
    with a1 show ?thesis
      by (simp add: tokenize_arg_def amended_opens_def claimed_opens_def c_at_def)
  next
    case a2: (Cons y r')
    show ?thesis
    proof (cases r')
      case Nil
      with a1 a2 show ?thesis
        by (simp add: tokenize_arg_def amended_opens_def claimed_opens_def c_at_def)
    next
      case (Cons z r'')
      with a1 a2 show ?thesis
        by (simp add: tokenize_arg_def amended_opens_def claimed_opens_def c_at_def)
    qed
  qed
qed

lemma foldl_tokenize_arg:
  "foldl tokenize_arg (ts @ [cur]) argv = ts @ rule_tokens amended_opens cur argv"
proof (induction argv arbitrary: ts cur)
  case Nil
  show ?case by simp
next
  case (Cons a argv)
  show ?case
  proof (cases "amended_opens a")
    case None
    then show ?thesis
      using Cons.IH [of ts "add cur a"] by (simp add: tokenize_arg_rule back_add_snoc)
  next
    case (Some n)
    then show ?thesis
      using Cons.IH [of "ts @ [cur]" "\<lparr>cmd = n, args = []\<rparr>"] by (simp add: tokenize_arg_rule)
  qed
qed

lemma rule_tokens_cong:
  "(\<And>a. a \<in> set argv \<Longrightarrow> f a = g a) \<Longrightarrow> rule_tokens f cur argv = rule_tokens g cur argv"
  by (induction argv arbitrary: cur) (simp_all split: option.splits)

text \<open>
  C2. The rule as the source has it: for every argument vector the tokenizer follows the
  rule of the claim with one change, a bare \<open>--\<close> opens a new token named \<open>-\<close>
  instead of being appended as a plain argument. Argument 0 opens the first token with no
  dash stripped; on a vector without a bare \<open>--\<close> the tokens are those of the claimed
  rule.
\<close>

theorem tokenize_rule:
  "tokenize ts argv0 argv = ts @ rule_tokens amended_opens \<lparr>cmd = argv0, args = []\<rparr> argv
   \<and> (''--'' \<notin> set argv \<longrightarrow>
        tokenize ts argv0 argv = ts @ rule_tokens claimed_opens \<lparr>cmd = argv0, args = []\<rparr> argv)"
proof (intro conjI impI)
  show a: "tokenize ts argv0 argv = ts @ rule_tokens amended_opens \<lparr>cmd = argv0, args = []\<rparr> argv"
    by (simp add: tokenize_def foldl_tokenize_arg)
  assume "''--'' \<notin> set argv"
  then have "rule_tokens amended_opens \<lparr>cmd = argv0, args = []\<rparr> argv
      = rule_tokens claimed_opens \<lparr>cmd = argv0, args = []\<rparr> argv"
    by (intro rule_tokens_cong) (auto simp: amended_opens_def)
  with a show "tokenize ts argv0 argv = ts @ rule_tokens claimed_opens \<lparr>cmd = argv0, args = []\<rparr> argv"
    by simp
qed

theorem tokenize_rule_witness:
  "tokenize [] ''prog'' [''-a'', ''1'', ''2'', ''--long'', ''x'']
     = [\<lparr>cmd = ''prog'', args = []\<rparr>, \<lparr>cmd = ''a'', args = [''1'', ''2'']\<rparr>,
        \<lparr>cmd = ''long'', args = [''x'']\<rparr>]
   \<and> tokenize [] ''prog'' [''-'', ''--'', ''y'']
     = [\<lparr>cmd = ''prog'', args = [''-'']\<rparr>, \<lparr>cmd = ''-'', args = [''y'']\<rparr>]"
proof
  have "''--'' \<notin> set [''-a'', ''1'', ''2'', ''--long'', ''x'']"
    by simp
  with tokenize_rule [of "[]" "''prog''" "[''-a'', ''1'', ''2'', ''--long'', ''x'']"]
  show "tokenize [] ''prog'' [''-a'', ''1'', ''2'', ''--long'', ''x'']
     = [\<lparr>cmd = ''prog'', args = []\<rparr>, \<lparr>cmd = ''a'', args = [''1'', ''2'']\<rparr>,
        \<lparr>cmd = ''long'', args = [''x'']\<rparr>]"
    by (simp add: amended_opens_def claimed_opens_def add_def)
  from tokenize_rule [of "[]" "''prog''" "[''-'', ''--'', ''y'']"]
  show "tokenize [] ''prog'' [''-'', ''--'', ''y'']
     = [\<lparr>cmd = ''prog'', args = [''-'']\<rparr>, \<lparr>cmd = ''-'', args = [''y'']\<rparr>]"
    by (simp add: amended_opens_def claimed_opens_def add_def)
qed

text \<open>
  The claim as stated fails on \<open>["prog", "--"]\<close>: the source opens a token named \<open>-\<close>,
  the claimed rule appends \<open>--\<close> to the token \<open>prog\<close>.
\<close>

theorem tokenize_double_dash_counterexample:
  "tokenize [] ''prog'' [''--''] = [\<lparr>cmd = ''prog'', args = []\<rparr>, \<lparr>cmd = ''-'', args = []\<rparr>]
   \<and> rule_tokens claimed_opens \<lparr>cmd = ''prog'', args = []\<rparr> [''--'']
       = [\<lparr>cmd = ''prog'', args = [''--'']\<rparr>]
   \<and> tokenize [] ''prog'' [''--''] \<noteq> rule_tokens claimed_opens \<lparr>cmd = ''prog'', args = []\<rparr> [''--'']"
  by (simp add: tokenize_def tokenize_arg_def c_at_def claimed_opens_def add_def)

section \<open>Value bindings\<close>

text \<open>
  A string that starts with a character that is no white space, no sign and no digit has
  no numeric prefix: \<open>std::stoi\<close> throws.
\<close>

lemma std_stoi_non_numeric:
  assumes "\<not> isspace ch" and "ch \<noteq> CHR ''-''" and "ch \<noteq> CHR ''+''" and "\<not> isdigit ch"
  shows "std_stoi (ch # r) = None"
  using assms by (simp add: std_stoi_def Let_def)

lemma std_stoi_no_prefix:
  assumes "\<not> numeric_prefix s"
  shows "std_stoi s = None"
proof -
  define s1 where "s1 = dropWhile isspace s"
  have no: "\<not> (case s1 of
        [] \<Rightarrow> False
      | c # r \<Rightarrow> if c = CHR ''-'' \<or> c = CHR ''+'' then (case r of [] \<Rightarrow> False | d # _ \<Rightarrow> isdigit d)
                 else isdigit c)"
    using assms by (simp add: numeric_prefix_def s1_def)
  have key: "takeWhile isdigit (if take 1 s1 = ''-'' \<or> take 1 s1 = ''+'' then drop 1 s1 else s1) = []"
  proof (cases s1)
    case Nil
    then show ?thesis by simp
  next
    case (Cons c r)
    with no show ?thesis
      by (cases r) (auto split: if_splits)
  qed
  show ?thesis
    unfolding std_stoi_def Let_def
    by (simp only: key [unfolded s1_def] simp_thms if_True)
qed

text \<open>
  \<open>std::stoi\<close> reads a numeric prefix and ignores the rest, and it refuses a value that
  does not fit an \<open>int\<close>.
\<close>

lemma std_stoi_examples:
  "std_stoi ''x'' = None" "std_stoi [] = None" "std_stoi ''-'' = None" "std_stoi ''a1'' = None"
  "std_stoi ''12abc'' = Some 12" "std_stoi '' -7'' = Some (- 7)"
  "std_stoi ''2147483647'' = Some 2147483647" "std_stoi ''2147483648'' = None"
  by (simp_all add: std_stoi_def isspace_def isdigit_def digits_value_def)

lemma value_action_throws_conversion:
  "conv s = Inl e \<Longrightarrow> value_action conv restrictor assign (s # r, w) = (Some e, s # r, w)"
  by (simp add: value_action_def)

lemma value_action_throws_invalid:
  "conv s = Inr v \<Longrightarrow> \<not> restrictor v \<Longrightarrow>
   value_action conv restrictor assign (s # r, w) = (Some (Error (invalid_value s)), s # r, w)"
  by (simp add: value_action_def)

lemma value_action_assigns:
  "conv s = Inr v \<Longrightarrow> restrictor v \<Longrightarrow>
   value_action conv restrictor assign (s # r, w) = (None, s # r, assign v w)"
  by (simp add: value_action_def)

lemma add_value_registers:
  assumes "add_value nm conv assign restrictor c = (None, c')"
  shows "funcs c' nm
    = Some \<lparr>name = nm, func = value_action conv restrictor assign, expected_args = 1, priority = - 1\<rparr>"
  using assms
  by (auto simp: add_value_def add_cmd_def map_insert_def split: if_splits)

text \<open>
  C7. The binding that \<open>add_value\<close> registers for an \<open>int\<close> has arity 1. Invoked with
  an argument \<open>s\<close> that has no decimal digit after the optional white space and sign, its
  action throws the error \<open>Unexpected conversion of 's' to int.\<close> and leaves the state of
  the bound variables as it was, and so it does whenever \<open>std::stoi\<close> throws (also for a
  number outside \<open>int\<close>). A string with a numeric prefix is converted from that prefix,
  whatever follows it. Invoked with a value that fails the restrictor, the action throws
  the error \<open>Invaild value 's'\<close> and leaves the state as it was; only a converted value
  that passes the restrictor is assigned.
\<close>

theorem add_value_int_no_mutation:
  assumes "add_value nm str_to_int assign restrictor c = (None, c')"
  shows "\<exists>cb. funcs c' nm = Some cb \<and> expected_args cb = 1
    \<and> (\<forall>s r w. \<not> numeric_prefix s \<longrightarrow>
          func cb (s # r, w)
            = (Some (Error (''Unexpected conversion of '' @ q @ s @ q @ '' to int.'')), s # r, w))
    \<and> (\<forall>s r w. std_stoi s = None \<longrightarrow>
          func cb (s # r, w)
            = (Some (Error (''Unexpected conversion of '' @ q @ s @ q @ '' to int.'')), s # r, w))
    \<and> (\<forall>s r v w. std_stoi s = Some v \<and> \<not> restrictor v \<longrightarrow>
          func cb (s # r, w) = (Some (Error (''Invaild value '' @ q @ s @ q)), s # r, w))
    \<and> (\<forall>s r v w. std_stoi s = Some v \<and> restrictor v \<longrightarrow>
          func cb (s # r, w) = (None, s # r, assign v w))"
proof -
  let ?cb = "\<lparr>name = nm, func = value_action str_to_int restrictor assign, expected_args = 1,
               priority = - 1\<rparr>"
  have conv_text: "unexpected_conversion s ''int'' = ''Unexpected conversion of '' @ q @ s @ q @ '' to int.''"
    for s
    by (simp add: unexpected_conversion_def)
  have 1: "funcs c' nm = Some ?cb"
    by (rule add_value_registers [OF assms])
  have 2: "expected_args ?cb = 1"
    by simp
  have 4: "\<forall>s r w. std_stoi s = None \<longrightarrow>
      func ?cb (s # r, w)
        = (Some (Error (''Unexpected conversion of '' @ q @ s @ q @ '' to int.'')), s # r, w)"
    unfolding conv_text [symmetric]
    by (simp add: value_action_throws_conversion str_to_int_def)
  have 3: "\<forall>s r w. \<not> numeric_prefix s \<longrightarrow>
      func ?cb (s # r, w)
        = (Some (Error (''Unexpected conversion of '' @ q @ s @ q @ '' to int.'')), s # r, w)"
    using 4 std_stoi_no_prefix by blast
  have 5: "\<forall>s r v w. std_stoi s = Some v \<and> \<not> restrictor v \<longrightarrow>
      func ?cb (s # r, w) = (Some (Error (''Invaild value '' @ q @ s @ q)), s # r, w)"
    unfolding invalid_value_def [symmetric]
    by (simp add: value_action_throws_invalid str_to_int_def)
  have 6: "\<forall>s r v w. std_stoi s = Some v \<and> restrictor v \<longrightarrow>
      func ?cb (s # r, w) = (None, s # r, assign v w)"
    by (simp add: value_action_assigns str_to_int_def)
  from 1 2 3 4 5 6 show ?thesis
    by (intro exI [of _ ?cb] conjI)
qed

theorem add_value_int_no_mutation_witness:
  "\<exists>cb. funcs (snd (add_value ''n'' str_to_int (\<lambda>v w. v) (range_restrictor 0 10) CLI_new)) ''n''
          = Some cb
     \<and> func cb ([''x''], 5 :: int) = (Some (Error ''Unexpected conversion of 'x' to int.''), [''x''], 5)
     \<and> func cb ([''99999999999''], 5)
         = (Some (Error ''Unexpected conversion of '99999999999' to int.''), [''99999999999''], 5)
     \<and> func cb ([''42''], 5) = (Some (Error (''Invaild value '42'' @ q)), [''42''], 5)
     \<and> func cb ([''7''], 5) = (None, [''7''], 7)"
proof -
  let ?c = "snd (add_value ''n'' str_to_int (\<lambda>v w. v) (range_restrictor 0 10) CLI_new) :: int CLI"
  have r: "add_value ''n'' str_to_int (\<lambda>v w. v) (range_restrictor 0 10) CLI_new = (None, ?c)"
    by (simp add: add_value_def add_cmd_def CLI_new_def)
  have x: "\<not> numeric_prefix ''x''"
    by (simp add: numeric_prefix_def isspace_def isdigit_def)
  have big: "std_stoi ''99999999999'' = None"
    by (simp add: std_stoi_def isspace_def isdigit_def digits_value_def)
  have y: "std_stoi ''42'' = Some 42 \<and> \<not> range_restrictor 0 10 (42 :: int)"
    by (simp add: std_stoi_def isspace_def isdigit_def digits_value_def range_restrictor_def)
  have z: "std_stoi ''7'' = Some 7 \<and> range_restrictor 0 10 (7 :: int)"
    by (simp add: std_stoi_def isspace_def isdigit_def digits_value_def range_restrictor_def)
  from add_value_int_no_mutation [OF r] obtain cb where
    cb: "funcs ?c ''n'' = Some cb"
      "\<forall>s r w. \<not> numeric_prefix s \<longrightarrow>
          func cb (s # r, w)
            = (Some (Error (''Unexpected conversion of '' @ q @ s @ q @ '' to int.'')), s # r, w)"
      "\<forall>s r w. std_stoi s = None \<longrightarrow>
          func cb (s # r, w)
            = (Some (Error (''Unexpected conversion of '' @ q @ s @ q @ '' to int.'')), s # r, w)"
      "\<forall>s r v w. std_stoi s = Some v \<and> \<not> range_restrictor 0 10 v \<longrightarrow>
          func cb (s # r, w) = (Some (Error (''Invaild value '' @ q @ s @ q)), s # r, w)"
      "\<forall>s r v w. std_stoi s = Some v \<and> range_restrictor 0 10 v \<longrightarrow>
          func cb (s # r, w) = (None, s # r, v)"
    by blast
  from cb(2) x have "func cb ([''x''], 5)
      = (Some (Error (''Unexpected conversion of '' @ q @ ''x'' @ q @ '' to int.'')), [''x''], 5)"
    by blast
  then have 1: "func cb ([''x''], 5) = (Some (Error ''Unexpected conversion of 'x' to int.''), [''x''], 5)"
    by simp
  from cb(3) big have "func cb ([''99999999999''], 5)
      = (Some (Error (''Unexpected conversion of '' @ q @ ''99999999999'' @ q @ '' to int.'')),
         [''99999999999''], 5)"
    by blast
  then have 2: "func cb ([''99999999999''], 5)
      = (Some (Error ''Unexpected conversion of '99999999999' to int.''), [''99999999999''], 5)"
    by simp
  from cb(4) y have "func cb ([''42''], 5) = (Some (Error (''Invaild value '' @ q @ ''42'' @ q)), [''42''], 5)"
    by blast
  then have 3: "func cb ([''42''], 5) = (Some (Error (''Invaild value '42'' @ q)), [''42''], 5)"
    by simp
  from cb(5) z have 4: "func cb ([''7''], 5) = (None, [''7''], 7)"
    by blast
  from cb(1) 1 2 3 4 show ?thesis
    by (intro exI [of _ cb] conjI)
qed

text \<open>
  The claim as stated fails on \<open>12abc\<close>: the string is not a number, and the action
  throws nothing and overwrites the variable with 12.
\<close>

theorem add_value_numeric_prefix_counterexample:
  "\<not> integer_literal ''12abc''
   \<and> map_option (\<lambda>cb. func cb ([''12abc''], 5 :: int))
        (funcs (snd (add_value ''n'' str_to_int (\<lambda>v w. v) default_restrictor CLI_new)) ''n'')
       = Some (None, [''12abc''], 12)"
  by code_simp

section \<open>Cluster expansion\<close>

lemma is_multi_update [simp]: "is_multi (c\<lparr>tokens := ts, cout := co\<rparr>) s = is_multi c s"
  by (simp add: is_multi_def)

lemma expand_update [simp]: "expand (c\<lparr>tokens := ts, cout := co\<rparr>) xs = expand c xs"
  by (induction c xs rule: expand.induct) simp_all

lemma parse_multi_loop_tokens:
  "tokens (parse_multi_loop c it) = take it (tokens c) @ expand c (drop it (tokens c))"
proof (induction c it rule: parse_multi_loop.induct)
  case (1 c it)
  show ?case
  proof (cases "it < length (tokens c)")
    case False
    then show ?thesis
      by (simp add: parse_multi_loop.simps [of c it])
  next
    case in_range: True
    then have split: "drop it (tokens c) = tokens c ! it # drop (Suc it) (tokens c)"
      by (simp add: Cons_nth_drop_Suc)
    show ?thesis
    proof (cases "is_multi c (cmd (tokens c ! it))")
      case False
      with in_range have "tokens (parse_multi_loop c it) = tokens (parse_multi_loop c (Suc it))"
        by (simp add: parse_multi_loop.simps [of c it])
      also have "\<dots> = take (Suc it) (tokens c) @ expand c (drop (Suc it) (tokens c))"
        using "1.IH"(2) [OF in_range False] .
      finally show ?thesis
        using in_range False by (simp add: split take_Suc_conv_app_nth)
    next
      case True
      obtain ts it' where ins: "insert_chars (tokens c) it (cmd (tokens c ! it)) = (ts, it')"
        by (cases "insert_chars (tokens c) it (cmd (tokens c ! it))")
      from parse_multi_step [OF in_range ins]
      have it': "it' = it + length (cmd (tokens c ! it))"
        and same: "ts ! it' = tokens c ! it"
        and erased: "erase_at ts it' = take it (tokens c)
            @ map (\<lambda>ch. \<lparr>cmd = [ch], args = []\<rparr>) (cmd (tokens c ! it)) @ drop (Suc it) (tokens c)"
        by blast+
      let ?c' = "c\<lparr>tokens := erase_at ts it', cout := cout c @ map discarded (args (ts ! it'))\<rparr>"
      have "tokens (parse_multi_loop c it) = tokens (parse_multi_loop ?c' (Suc it'))"
        using in_range True ins by (simp add: parse_multi_loop.simps [of c it])
      also have "\<dots> = take (Suc it') (tokens ?c') @ expand ?c' (drop (Suc it') (tokens ?c'))"
        using "1.IH"(1) [OF in_range True ins [symmetric]] .
      also have "\<dots> = take it (tokens c) @ expand c (drop it (tokens c))"
        using in_range True by (simp add: erased [unfolded it'] it' split)
      finally show ?thesis .
    qed
  qed
qed

lemma parse_multi_tokens: "tokens (parse_multi c) = expand c (tokens c)"
  by (simp add: parse_multi_def parse_multi_loop_tokens)

text \<open>
  C1. The source expands a cluster token unless it stands right after another cluster
  token. With commands at \<open>a\<close> and \<open>b\<close>, \<open>["prog", "-ab", "-ba"]\<close> gives the tokens
  \<open>prog\<close>, \<open>a\<close>, \<open>b\<close>, \<open>ba\<close>: the second cluster is kept whole, reported as
  unrecognized, and only the actions of the first run. With commands at \<open>a\<close>, \<open>b\<close>,
  \<open>c\<close>, \<open>["prog", "-abc"]\<close> gives \<open>prog\<close>, \<open>a\<close>, \<open>b\<close>, \<open>c\<close> and all three actions run.
\<close>

theorem cluster_after_cluster_kept:
  "tokens (snd (and_then registry_ab (parse ''prog'' [''-ab'', ''-ba''])))
     = [\<lparr>cmd = ''prog'', args = []\<rparr>, \<lparr>cmd = ''a'', args = []\<rparr>, \<lparr>cmd = ''b'', args = []\<rparr>,
        \<lparr>cmd = ''ba'', args = []\<rparr>]
   \<and> cout (snd (and_then registry_ab (parse ''prog'' [''-ab'', ''-ba'']))) = [unrecognized ''ba'']
   \<and> parse_and_run registry_ab ''prog'' [''-ab'', ''-ba''] = (None, [''a'', ''b''])
   \<and> tokens (snd (and_then registry_abc (parse ''prog'' [''-abc''])))
     = [\<lparr>cmd = ''prog'', args = []\<rparr>, \<lparr>cmd = ''a'', args = []\<rparr>, \<lparr>cmd = ''b'', args = []\<rparr>,
        \<lparr>cmd = ''c'', args = []\<rparr>]
   \<and> parse_and_run registry_abc ''prog'' [''-abc''] = (None, [''a'', ''b'', ''c''])"
  by code_simp

lemma cluster_arguments_discarded:
  "tokens (snd (and_then registry_abc (parse ''prog'' [''-cab'', ''x'', ''y''])))
     = [\<lparr>cmd = ''prog'', args = []\<rparr>, \<lparr>cmd = ''c'', args = []\<rparr>, \<lparr>cmd = ''a'', args = []\<rparr>,
        \<lparr>cmd = ''b'', args = []\<rparr>]
   \<and> cout (snd (and_then registry_abc (parse ''prog'' [''-cab'', ''x'', ''y''])))
     = [discarded ''x'', discarded ''y'']"
  by code_simp

section \<open>Registration\<close>

lemma registration_after_parse:
  assumes "parsed c"
  shows "add_cmd cm fn ea pr c = (Some (Fatal ''Can not add_cmd() after parse().''), c)"
    and "add_cmd_alias cm alia fn ea pr c = (Some (Fatal ''Can not add_cmd() after parse().''), c)"
    and "add_value nm conv assign restrictor c = (Some (Fatal ''Can not add_value() after parse().''), c)"
    and "add_value_alias nm alia conv assign restrictor c
           = (Some (Fatal ''Can not add_value() after parse().''), c)"
    and "add_option nm set_true c = (Some (Fatal ''Can not add_value() after parse().''), c)"
    and "add_option_alias nm alia set_true c = (Some (Fatal ''Can not add_value() after parse().''), c)"
  using assms
  by (simp_all add: add_cmd_def add_cmd_alias_def add_value_def add_value_alias_def add_option_def
      add_option_alias_def)

lemma registration_same_namespace_duplicate:
  assumes "\<not> parsed c"
  shows "funcs c cm \<noteq> None \<Longrightarrow> add_cmd cm fn ea pr c = (Some (Fatal (duplicate_name cm)), c)"
    and "funcs c cm \<noteq> None \<Longrightarrow> add_cmd_alias cm alia fn ea pr c = (Some (Fatal (duplicate_name cm)), c)"
    and "funcs c cm = None \<Longrightarrow> alias_map c alia \<noteq> None \<Longrightarrow>
         add_cmd_alias cm alia fn ea pr c = (Some (Fatal (duplicate_name alia)), c)"
  using assms by (simp_all add: add_cmd_def add_cmd_alias_def)

lemma run_before_parse:
  "\<not> parsed c \<Longrightarrow> run (c, w) = (Some (Fatal ''Option has not parsed.''), c, w)"
  by (simp add: run_def)

text \<open>
  C3. Each registration looks for the primary name among the primary names only and for
  the alias among the aliases only. A new primary name \<open>y\<close> that is an alias already, and
  a new alias \<open>x\<close> that is a primary name already, are both accepted; the state then holds
  \<open>y\<close> in both maps.
\<close>

theorem cross_namespace_duplicate_accepted:
  "fst (and_then (add_cmd_alias ''x'' ''y'' (say ''x'') (- 1) (- 1) CLI_new)
         (add_cmd ''y'' (say ''y'') (- 1) (- 1))) = None
   \<and> alias_map (snd (and_then (add_cmd_alias ''x'' ''y'' (say ''x'') (- 1) (- 1) CLI_new)
         (add_cmd ''y'' (say ''y'') (- 1) (- 1)))) ''y'' = Some ''x''
   \<and> map_option name (funcs (snd (and_then (add_cmd_alias ''x'' ''y'' (say ''x'') (- 1) (- 1) CLI_new)
         (add_cmd ''y'' (say ''y'') (- 1) (- 1)))) ''y'') = Some ''y''
   \<and> fst (and_then (add_cmd ''x'' (say ''x'') (- 1) (- 1) CLI_new)
         (add_cmd_alias ''z'' ''x'' (say ''z'') (- 1) (- 1))) = None
   \<and> fst (add_cmd_alias ''x'' ''x'' (say ''x'') (- 1) (- 1) CLI_new) = None"
  by code_simp

text \<open>
  After a \<open>parse\<close> that threw, \<open>parsed\<close> is still unset and a registration is accepted.
\<close>

lemma registration_after_thrown_parse:
  "fst (parse ''prog'' [''-a'', ''-n''] (snd registry_arity)) \<noteq> None
   \<and> fst (add_cmd ''z'' (say ''z'') (- 1) (- 1)
            (snd (parse ''prog'' [''-a'', ''-n''] (snd registry_arity)))) = None"
  by code_simp

section \<open>The program-identity token\<close>

text \<open>
  C6. \<open>parse\<close> inserts a do-nothing callback under \<open>argv[0]\<close>, and \<open>insert\<close> keeps an
  entry that is there already: with a command registered at \<open>prog\<close>, the token of
  \<open>argv[0] = "prog"\<close> is resolved to that command, and \<open>run\<close> executes its action with
  the plain arguments that follow \<open>argv[0]\<close>. When no command is registered at
  \<open>argv[0]\<close>, the token runs nothing.
\<close>

theorem program_token_runs_registered_command:
  "parse_and_run (add_cmd ''prog'' (say ''user action'') (- 1) (- 1) CLI_new) ''prog'' []
     = (None, [''user action''])
   \<and> map bound_arg (tasks (snd (and_then (add_cmd ''prog'' (say ''user action'') (- 1) (- 1) CLI_new)
         (parse ''prog'' [''x'', ''y''])))) = [[''x'', ''y'']]
   \<and> parse_and_run (add_cmd ''other'' (say ''user action'') (- 1) (- 1) CLI_new) ''prog'' [] = (None, [])"
  by code_simp

text \<open>
  The callback inserted under \<open>argv[0]\<close> makes \<open>argv[0]\<close> a registered name for the
  rest of \<open>parse\<close>: a later token of that name is packed on the do-nothing callback
  without a warning, and a one-character \<open>argv[0]\<close> counts as a registered character in
  \<open>is_multi\<close>.
\<close>

lemma program_name_is_registered:
  "cout (snd (and_then registry_ab (parse ''prog'' [''-prog'', ''x'']))) = []
   \<and> map bound_arg (tasks (snd (and_then registry_ab (parse ''prog'' [''-prog'', ''x''])))) = [[], [''x'']]
   \<and> map cmd (tokens (snd (and_then registry_ab (parse ''p'' [''-pa'']))))
       = [''p'', ''p'', ''a'']"
  by code_simp

section \<open>Running the tasks\<close>

lemma and_then_simps [simp]:
  "and_then (None, s) f = f s"
  "and_then (Some e, s) f = (Some e, s)"
  by (simp_all add: and_then_def)

lemma and_then_assoc: "and_then (and_then r f) g = and_then r (\<lambda>s. and_then (f s) g)"
  by (cases r) (simp add: and_then_def split: option.splits)

lemma call_seq_append:
  "call_seq (xs @ ys) (s :: 'w CLI \<times> 'w) = and_then (call_seq xs s) (call_seq ys)"
proof (induction xs arbitrary: s)
  case Nil
  show ?case by simp
next
  case (Cons i xs)
  have "call_seq (xs @ ys) = (\<lambda>s :: 'w CLI \<times> 'w. and_then (call_seq xs s) (call_seq ys))"
    by (rule ext) (simp add: Cons.IH)
  then show ?case
    by (simp add: and_then_assoc)
qed

lemma call_at_keeps:
  "call_at i (c, w) = (e, c', w') \<Longrightarrow>
   parsed c' = parsed c \<and> length (tasks c') = length (tasks c)"
  by (auto simp: call_at_def split: prod.splits)

lemma call_seq_keeps:
  "call_seq js (c, w) = (e, c', w') \<Longrightarrow>
   parsed c' = parsed c \<and> length (tasks c') = length (tasks c)"
proof (induction js arbitrary: c w)
  case Nil
  then show ?case by simp
next
  case (Cons i js)
  obtain e1 c1 w1 where first: "call_at i (c, w) = (e1, c1, w1)"
    by (cases "call_at i (c, w)")
  show ?case
  proof (cases e1)
    case None
    with Cons.prems first have "call_seq js (c1, w1) = (e, c', w')"
      by simp
    from Cons.IH [OF this] call_at_keeps [OF first] show ?thesis
      by simp
  next
    case (Some x)
    with Cons.prems first call_at_keeps [OF first] show ?thesis
      by simp
  qed
qed

lemma run_tasks_call_seq:
  "run_tasks rest w = (e, rest', w') \<Longrightarrow>
   call_seq [length pre..<length pre + length rest] (c\<lparr>tasks := pre @ rest\<rparr>, w)
     = (e, c\<lparr>tasks := pre @ rest'\<rparr>, w')"
proof (induction rest arbitrary: pre w e rest' w')
  case Nil
  then show ?case by simp
next
  case (Cons r rs)
  obtain e1 r1 w1 where first: "call r w = (e1, r1, w1)"
    by (cases "call r w")
  have at: "call_at (length pre) (c\<lparr>tasks := pre @ r # rs\<rparr>, w) = (e1, c\<lparr>tasks := pre @ r1 # rs\<rparr>, w1)"
    using first by (simp add: call_at_def)
  let ?rest = "[length (pre @ [r1])..<length (pre @ [r1]) + length rs]"
  have upt: "[length pre..<length pre + length (r # rs)] = length pre # ?rest"
    by (subst upt_rec) simp
  have unfold: "call_seq [length pre..<length pre + length (r # rs)] (c\<lparr>tasks := pre @ r # rs\<rparr>, w)
      = and_then (e1, c\<lparr>tasks := pre @ r1 # rs\<rparr>, w1) (call_seq ?rest)"
    by (simp only: upt call_seq.simps at)
  show ?case
  proof (cases e1)
    case (Some x)
    with Cons.prems first have "e = Some x" "rest' = r1 # rs" "w' = w1"
      by simp_all
    with unfold Some show ?thesis
      by (simp only: and_then_simps)
  next
    case None
    obtain e2 rs2 w2 where rest: "run_tasks rs w1 = (e2, rs2, w2)"
      by (cases "run_tasks rs w1")
    with Cons.prems first None have res: "e = e2" "rest' = r1 # rs2" "w' = w2"
      by simp_all
    have "call_seq ?rest (c\<lparr>tasks := (pre @ [r1]) @ rs\<rparr>, w1) = (e2, c\<lparr>tasks := (pre @ [r1]) @ rs2\<rparr>, w2)"
      by (rule Cons.IH [OF rest])
    then have "call_seq ?rest (c\<lparr>tasks := pre @ r1 # rs\<rparr>, w1) = (e2, c\<lparr>tasks := pre @ r1 # rs2\<rparr>, w2)"
      by (simp only: append_assoc append_Cons append_Nil)
    with unfold None res show ?thesis
      by (simp only: and_then_simps)
  qed
qed

lemma run_call_seq:
  assumes "parsed c"
  shows "run (c, w) = call_seq [0..<length (tasks c)] (c, w)"
proof -
  obtain e ts w' where r: "run_tasks (tasks c) w = (e, ts, w')"
    by (cases "run_tasks (tasks c) w")
  from run_tasks_call_seq [OF r, of "[]" c] assms r show ?thesis
    by (simp add: run_def)
qed

lemma call_at_same_actions:
  assumes "call_at i (c, w) = (e, c', w')"
  shows "map packed (tasks c') = map packed (tasks c)"
    and "map Packed.priority (tasks c') = map Packed.priority (tasks c)"
proof -
  obtain e1 r w1 where r: "call (tasks c ! i) w = (e1, r, w1)"
    by (cases "call (tasks c ! i) w")
  then have fields: "packed r = packed (tasks c ! i)" "Packed.priority r = Packed.priority (tasks c ! i)"
    by (auto simp: call_def split: prod.splits)
  from assms r have c': "tasks c' = (tasks c)[i := r]"
    by (auto simp: call_at_def)
  show "map packed (tasks c') = map packed (tasks c)"
    unfolding c' using fields(1) by (metis list_update_id map_update)
  show "map Packed.priority (tasks c') = map Packed.priority (tasks c)"
    unfolding c' using fields(2) by (metis list_update_id map_update)
qed

lemma call_seq_same_actions:
  "call_seq js (c, w) = (e, c', w') \<Longrightarrow>
   map packed (tasks c') = map packed (tasks c)
   \<and> map Packed.priority (tasks c') = map Packed.priority (tasks c)"
proof (induction js arbitrary: c w)
  case Nil
  then show ?case by simp
next
  case (Cons i js)
  obtain e1 c1 w1 where first: "call_at i (c, w) = (e1, c1, w1)"
    by (cases "call_at i (c, w)")
  show ?case
  proof (cases e1)
    case None
    with Cons.prems first have "call_seq js (c1, w1) = (e, c', w')"
      by simp
    from Cons.IH [OF this] call_at_same_actions [OF first] show ?thesis
      by simp
  next
    case (Some x)
    with Cons.prems first call_at_same_actions [OF first] show ?thesis
      by simp
  qed
qed

lemma count_list_upt: "count_list [0..<n] i = (if i < n then 1 else 0)"
  by (induction n) simp_all

text \<open>
  C9. \<open>run\<close> has no guard against a second call. On a parsed instance a \<open>run\<close>, whether
  it returns or throws, leaves the instance parsed with the same actions and priorities
  at the same positions, and each \<open>run\<close> calls the tasks at the positions
  \<open>0, ..., n - 1\<close> in this order up to the first throw. When the first \<open>run\<close> returns,
  the two runs together are the calls at \<open>0, ..., n - 1\<close> and then again at
  \<open>0, ..., n - 1\<close>: every position twice, both times in the same order, as far as no
  action throws.
\<close>

theorem run_twice:
  assumes "parsed c" and "run (c, w) = (e, c1, w1)"
  shows "parsed c1
    \<and> map packed (tasks c1) = map packed (tasks c)
    \<and> map Packed.priority (tasks c1) = map Packed.priority (tasks c)
    \<and> run (c, w) = call_seq [0..<length (tasks c)] (c, w)
    \<and> run (c1, w1) = call_seq [0..<length (tasks c)] (c1, w1)
    \<and> (e = None \<longrightarrow>
          run (c1, w1) = call_seq ([0..<length (tasks c)] @ [0..<length (tasks c)]) (c, w))
    \<and> and_then (run (c, w)) run
        = call_seq ([0..<length (tasks c)] @ [0..<length (tasks c)]) (c, w)
    \<and> (\<forall>i < length (tasks c).
          count_list ([0..<length (tasks c)] @ [0..<length (tasks c)]) i = 2)"
proof -
  have first: "call_seq [0..<length (tasks c)] (c, w) = (e, c1, w1)"
    using assms by (simp add: run_call_seq)
  from call_seq_keeps [OF first] assms(1)
  have keeps: "parsed c1" "length (tasks c1) = length (tasks c)"
    by simp_all
  from call_seq_same_actions [OF first]
  have same: "map packed (tasks c1) = map packed (tasks c)"
    "map Packed.priority (tasks c1) = map Packed.priority (tasks c)"
    by simp_all
  have r1: "run (c, w) = call_seq [0..<length (tasks c)] (c, w)"
    by (rule run_call_seq [OF assms(1)])
  have r2: "run (c1, w1) = call_seq [0..<length (tasks c)] (c1, w1)"
    using run_call_seq [OF keeps(1), of w1] keeps(2) by simp
  have both: "and_then (run (c, w)) run
      = call_seq ([0..<length (tasks c)] @ [0..<length (tasks c)]) (c, w)"
    using first r2 assms(2) by (cases e) (simp_all add: call_seq_append)
  have returned: "e = None \<longrightarrow>
      run (c1, w1) = call_seq ([0..<length (tasks c)] @ [0..<length (tasks c)]) (c, w)"
    using first r2 by (simp add: call_seq_append)
  have twice: "\<forall>i < length (tasks c).
      count_list ([0..<length (tasks c)] @ [0..<length (tasks c)]) i = 2"
    by (simp add: count_list_upt)
  from keeps(1) same r1 r2 returned both twice show ?thesis
    by (intro conjI)
qed

theorem run_twice_witness:
  "parsed (snd (and_then registry_priorities (parse ''prog'' [''-lowcmd'', ''-highcmd''])))
   \<and> snd (snd (run (snd (and_then registry_priorities (parse ''prog'' [''-lowcmd'', ''-highcmd''])), [])))
       = [''high'', ''low'']
   \<and> snd (snd (and_then
        (run (snd (and_then registry_priorities (parse ''prog'' [''-lowcmd'', ''-highcmd''])), [])) run))
       = [''high'', ''low'', ''high'', ''low'']"
proof -
  let ?c = "snd (and_then registry_priorities (parse ''prog'' [''-lowcmd'', ''-highcmd'']))"
  have p: "parsed ?c"
    by code_simp
  have once: "snd (snd (run (?c, []))) = [''high'', ''low'']"
    by code_simp
  have twice: "snd (snd (call_seq ([0..<length (tasks ?c)] @ [0..<length (tasks ?c)]) (?c, [])))
      = [''high'', ''low'', ''high'', ''low'']"
    by code_simp
  have "run (?c, []) = (fst (run (?c, [])), fst (snd (run (?c, []))), snd (snd (run (?c, []))))"
    by simp
  from run_twice [OF p this]
  have "and_then (run (?c, [])) run
      = call_seq ([0..<length (tasks ?c)] @ [0..<length (tasks ?c)]) (?c, [])"
    by blast
  with twice have "snd (snd (and_then (run (?c, [])) run)) = [''high'', ''low'', ''high'', ''low'']"
    by simp
  with p once show ?thesis
    by (intro conjI)
qed

text \<open>
  The claim as stated fails when an action throws. After the parse of
  \<open>["prog", "-b", "-n", "99", "-a"]\<close> on \<open>registry_range\<close> the instance is parsed and
  holds four tasks; the first \<open>run\<close> calls \<open>a\<close> and ends in the throw of \<open>n\<close>, and so does
  the second: after two runs \<open>b\<close> has not been invoked at all.
\<close>

theorem run_twice_throw_counterexample:
  "fst (and_then registry_range (parse ''prog'' [''-b'', ''-n'', ''99'', ''-a''])) = None
   \<and> parsed (snd (and_then registry_range (parse ''prog'' [''-b'', ''-n'', ''99'', ''-a''])))
   \<and> length (tasks (snd (and_then registry_range (parse ''prog'' [''-b'', ''-n'', ''99'', ''-a''])))) = 4
   \<and> run (snd (and_then registry_range (parse ''prog'' [''-b'', ''-n'', ''99'', ''-a''])), [])
       = (Some (Error (''Invaild value '99'' @ q)),
          fst (snd (run (snd (and_then registry_range (parse ''prog'' [''-b'', ''-n'', ''99'', ''-a''])), []))),
          [''a''])
   \<and> fst (run (snd (run (snd (and_then registry_range (parse ''prog'' [''-b'', ''-n'', ''99'', ''-a''])), []))))
       = Some (Error (''Invaild value '99'' @ q))
   \<and> snd (snd (run (snd (run (snd (and_then registry_range
         (parse ''prog'' [''-b'', ''-n'', ''99'', ''-a''])), []))))) = [''a'', ''a'']"
proof -
  let ?c = "snd (and_then registry_range (parse ''prog'' [''-b'', ''-n'', ''99'', ''-a'']))"
  have a: "fst (and_then registry_range (parse ''prog'' [''-b'', ''-n'', ''99'', ''-a''])) = None"
    by code_simp
  have b: "parsed ?c"
    by code_simp
  have c: "length (tasks ?c) = 4"
    by code_simp
  have "fst (run (?c, [])) = Some (Error (''Invaild value '99'' @ q))"
    "snd (snd (run (?c, []))) = [''a'']"
    by code_simp+
  then have d: "run (?c, []) = (Some (Error (''Invaild value '99'' @ q)), fst (snd (run (?c, []))), [''a''])"
    by (simp add: prod_eq_iff)
  have e: "fst (run (snd (run (?c, [])))) = Some (Error (''Invaild value '99'' @ q))"
    by code_simp
  have f: "snd (snd (run (snd (run (?c, []))))) = [''a'', ''a'']"
    by code_simp
  from a b c d e f show ?thesis
    by (intro conjI)
qed

section \<open>Priority order\<close>

lemma insert_before_mset: "mset (insert_before cmp x ys) = add_mset x (mset ys)"
  by (induction ys) simp_all

lemma std_sort_mset: "mset (std_sort cmp xs) = mset xs"
  by (induction xs) (simp_all add: std_sort_def insert_before_mset)

lemma insert_before_sorted:
  fixes key :: "'a \<Rightarrow> int"
  assumes "sorted_wrt (\<lambda>a b. key b \<le> key a) ys"
  shows "sorted_wrt (\<lambda>a b. key b \<le> key a) (insert_before (\<lambda>a b. key b < key a) x ys)"
  using assms
proof (induction ys)
  case Nil
  show ?case by simp
next
  case (Cons y ys)
  have members: "set (insert_before (\<lambda>a b. key b < key a) x ys) = insert x (set ys)"
    using insert_before_mset [of "\<lambda>a b. key b < key a" x ys]
    by (metis set_mset_add_mset_insert set_mset_mset)
  show ?case
  proof (cases "key x < key y")
    case True
    with Cons members show ?thesis
      by auto
  next
    case False
    with Cons show ?thesis
      by auto
  qed
qed

lemma std_sort_sorted:
  fixes key :: "'a \<Rightarrow> int"
  shows "sorted_wrt (\<lambda>a b. key b \<le> key a) (std_sort (\<lambda>a b. key b < key a) xs)"
  by (induction xs) (simp_all add: std_sort_def insert_before_sorted)

lemma parse_returns:
  assumes "parse argv0 argv c = (None, c')"
  shows "\<exists>c4. c' = c4\<lparr>tasks := std_sort (\<lambda>p1 p2. Packed.priority p2 < Packed.priority p1) (tasks c4),
                      parsed := True\<rparr>"
  using assms by (auto simp: parse_def Let_def split: prod.splits option.splits)

text \<open>
  C4. After a \<open>parse\<close> that returned, the instance is parsed, the priorities along
  \<open>tasks\<close> never increase, so a task of higher priority stands at a smaller position than
  any task of lower priority, and \<open>run\<close> calls the tasks by increasing position: the
  actions run in non-increasing priority order, whatever the order of the tokens.
\<close>

theorem run_in_priority_order:
  assumes "parse argv0 argv c = (None, c')"
  shows "parsed c'
    \<and> sorted_wrt (\<lambda>p1 p2. Packed.priority p2 \<le> Packed.priority p1) (tasks c')
    \<and> (\<forall>i j. i < length (tasks c') \<and> j < length (tasks c')
          \<and> Packed.priority (tasks c' ! j) < Packed.priority (tasks c' ! i) \<longrightarrow> i < j)
    \<and> run (c', w) = call_seq [0..<length (tasks c')] (c', w)"
proof -
  from parse_returns [OF assms] obtain c4 where
    c': "c' = c4\<lparr>tasks := std_sort (\<lambda>p1 p2. Packed.priority p2 < Packed.priority p1) (tasks c4),
                  parsed := True\<rparr>"
    by blast
  then have p: "parsed c'"
    by simp
  have s: "sorted_wrt (\<lambda>p1 p2. Packed.priority p2 \<le> Packed.priority p1) (tasks c')"
    unfolding c' by (simp add: std_sort_sorted)
  have o: "i < j" if "i < length (tasks c')" "j < length (tasks c')"
    "Packed.priority (tasks c' ! j) < Packed.priority (tasks c' ! i)" for i j
  proof (rule ccontr)
    assume "\<not> i < j"
    with that(3) have "j < i"
      by (cases "i = j") simp_all
    with s that(1) have "Packed.priority (tasks c' ! i) \<le> Packed.priority (tasks c' ! j)"
      by (simp add: sorted_wrt_iff_nth_less)
    with that(3) show False
      by simp
  qed
  from p s o run_call_seq [OF p, of w] show ?thesis
    by blast
qed

theorem run_in_priority_order_witness:
  "sorted_wrt (\<lambda>p1 p2. Packed.priority p2 \<le> Packed.priority p1)
     (tasks (snd (parse ''prog'' [''-lowcmd'', ''-highcmd''] (snd registry_priorities))))
   \<and> map Packed.priority (tasks (snd (parse ''prog'' [''-lowcmd'', ''-highcmd''] (snd registry_priorities))))
       = [10, 5, - 1]
   \<and> parse_and_run registry_priorities ''prog'' [''-lowcmd'', ''-highcmd''] = (None, [''high'', ''low''])
   \<and> parse_and_run registry_priorities ''prog'' [''-highcmd'', ''-lowcmd''] = (None, [''high'', ''low''])"
proof -
  let ?r = "parse ''prog'' [''-lowcmd'', ''-highcmd''] (snd registry_priorities)"
  have "fst ?r = None"
    by code_simp
  then have "?r = (None, snd ?r)"
    by (simp add: prod_eq_iff)
  from run_in_priority_order [OF this]
  have a: "sorted_wrt (\<lambda>p1 p2. Packed.priority p2 \<le> Packed.priority p1) (tasks (snd ?r))"
    by blast
  have b: "map Packed.priority (tasks (snd ?r)) = [10, 5, - 1]"
    by code_simp
  have c: "parse_and_run registry_priorities ''prog'' [''-lowcmd'', ''-highcmd''] = (None, [''high'', ''low''])"
    by code_simp
  have d: "parse_and_run registry_priorities ''prog'' [''-highcmd'', ''-lowcmd''] = (None, [''high'', ''low''])"
    by code_simp
  from a b c d show ?thesis
    by (intro conjI)
qed

section \<open>A throw inside \<open>parse\<close>\<close>






declare resolve.simps(2) [simp del]









end
